theory Spec2Isabelle
  imports Complex_Main
begin

section \<open>Data model (src/types)\<close>

text \<open>
  JavaScript strings are modelled as HOL strings, one \<^typ>\<open>char\<close> per code unit in the
  range 0..255. JavaScript numbers are modelled as exact reals (no rounding, no NaN), and a
  \<open>Date\<close> as its time value, the integer number of milliseconds since the epoch.
  An object indexed by \<open>Category\<close> with optional entries is a partial map.
\<close>

datatype CardType = VISA | MASTERCARD | AMEX | DISCOVER | OTHER_TYPE

datatype Category =
  DINING | TRAVEL | SHOPPING | GROCERIES | ENTERTAINMENT
  | UTILITIES | HEALTHCARE | TRANSPORTATION | OTHER

text \<open>The string value of each member of the \<open>Category\<close> enum.\<close>

fun category_string :: "Category \<Rightarrow> string" where
  "category_string DINING = ''dining''"
| "category_string TRAVEL = ''travel''"
| "category_string SHOPPING = ''shopping''"
| "category_string GROCERIES = ''groceries''"
| "category_string ENTERTAINMENT = ''entertainment''"
| "category_string UTILITIES = ''utilities''"
| "category_string HEALTHCARE = ''healthcare''"
| "category_string TRANSPORTATION = ''transportation''"
| "category_string OTHER = ''other''"

record Card =
  card_id :: string
  name :: string
  number :: string
  expiry :: string
  cvv :: string
  cardholderName :: string
  cardType :: CardType
  categories :: "Category list"
  cashback :: "Category \<rightharpoonup> real"
  perks :: "Category \<rightharpoonup> string list"
  color :: "string option"
  lastUsed :: "int option"

record Transaction =
  category :: Category
  amount :: real
  date :: "int option"
  description :: "string option"

record CardSuggestion =
  card_sg :: Card
  reason :: string
  cashbackAmount :: "real option"
  perks_sg :: "string list option"

section \<open>CardManager (src/services/CardManager.ts)\<close>

text \<open>
  Every failure of the store is a thrown \<open>Error\<close> carrying a message. The two
  constructors separate the two kinds of throw site: the checks of \<open>validateCard\<close>, and
  the lookups that find no card with the given id.
\<close>

datatype error = ValidationError string | NotFoundError string

text \<open>The regular-expression classes \<open>\d\<close> and \<open>\s\<close> on code units below 256.\<close>

definition isDigit :: "char \<Rightarrow> bool" where
  "isDigit c = (c \<in> set ''0123456789'')"

definition isSpace :: "char \<Rightarrow> bool" where
  "isSpace c = ((of_char c :: nat) \<in> {9, 10, 11, 12, 13, 32, 160})"

text \<open>\<open>/^\d{lo,hi}$/\<close>\<close>

definition digitsBetween :: "nat \<Rightarrow> nat \<Rightarrow> string \<Rightarrow> bool" where
  "digitsBetween lo hi s = (lo \<le> length s \<and> length s \<le> hi \<and> list_all isDigit s)"

text \<open>\<open>/^\d{2}\/\d{2}$/\<close>\<close>

definition expiryFormat :: "string \<Rightarrow> bool" where
  "expiryFormat s =
     (case s of
        [a, b, c, d, e] \<Rightarrow> isDigit a \<and> isDigit b \<and> c = CHR ''/'' \<and> isDigit d \<and> isDigit e
      | _ \<Rightarrow> False)"

text \<open>\<open>validateCard\<close> returns the error it throws, or \<open>None\<close> when it returns normally.\<close>

definition validateCard :: "Card \<Rightarrow> error option" where
  "validateCard c =
     (if card_id c = [] then Some (ValidationError ''Card ID is required'')
      else if name c = [] then Some (ValidationError ''Card name is required'')
      else if number c = [] then Some (ValidationError ''Card number is required'')
      else if expiry c = [] then Some (ValidationError ''Card expiry is required'')
      else if cvv c = [] then Some (ValidationError ''Card CVV is required'')
      else if cardholderName c = [] then Some (ValidationError ''Cardholder name is required'')
      else if \<not> digitsBetween 13 19 (filter (\<lambda>x. \<not> isSpace x) (number c))
        then Some (ValidationError ''Invalid card number format'')
      else if \<not> expiryFormat (expiry c)
        then Some (ValidationError ''Invalid expiry date format (should be MM/YY)'')
      else if \<not> digitsBetween 3 4 (cvv c)
        then Some (ValidationError ''Invalid CVV format (should be 3-4 digits)'')
      else None)"

text \<open>\<open>Array.prototype.findIndex\<close>; \<open>None\<close> stands for the result \<open>-1\<close>.\<close>

fun findIndex :: "('a \<Rightarrow> bool) \<Rightarrow> 'a list \<Rightarrow> nat option" where
  "findIndex P [] = None"
| "findIndex P (x # xs) =
     (if P x then Some 0 else map_option Suc (findIndex P xs))"

definition notFound :: "string \<Rightarrow> error" where
  "notFound cardId = NotFoundError (''Card with ID '' @ cardId @ '' not found'')"

text \<open>
  The store is the private array \<open>cards\<close>. Each operation takes it and returns the
  outcome of the call (the thrown error or the resolved value) together with the array
  as the call leaves it, so that what a failing call does to the array is visible.
  The methods are \<open>async\<close> without awaiting anything: a thrown error is the rejection of
  the returned promise. Cards are values here; a caller that keeps a reference to a stored
  card object and writes to it outside these methods is not followed.
\<close>

type_synonym store = "Card list"

definition getCards :: "store \<Rightarrow> Card list" where
  "getCards cards = cards"

definition addCard :: "store \<Rightarrow> Card \<Rightarrow> (error + Card) \<times> store" where
  "addCard cards c =
     (case validateCard c of
        Some e \<Rightarrow> (Inl e, cards)
      | None \<Rightarrow> (Inr c, cards @ [c]))"

definition updateCard :: "store \<Rightarrow> Card \<Rightarrow> (error + Card) \<times> store" where
  "updateCard cards c =
     (case validateCard c of
        Some e \<Rightarrow> (Inl e, cards)
      | None \<Rightarrow>
          (case findIndex (\<lambda>x. card_id x = card_id c) cards of
             None \<Rightarrow> (Inl (notFound (card_id c)), cards)
           | Some index \<Rightarrow> (Inr c, cards[index := c])))"

definition deleteCard :: "store \<Rightarrow> string \<Rightarrow> (error + bool) \<times> store" where
  "deleteCard cards cardId =
     (case findIndex (\<lambda>x. card_id x = cardId) cards of
        None \<Rightarrow> (Inl (notFound cardId), cards)
      | Some index \<Rightarrow> (Inr True, filter (\<lambda>x. card_id x \<noteq> cardId) cards))"

definition getCardById :: "store \<Rightarrow> string \<Rightarrow> Card option" where
  "getCardById cards cardId = find (\<lambda>x. card_id x = cardId) cards"

text \<open>\<open>now\<close> is the time value of the \<open>new Date()\<close> that the call creates.\<close>

definition updateCardLastUsed :: "int \<Rightarrow> store \<Rightarrow> string \<Rightarrow> (error + Card) \<times> store" where
  "updateCardLastUsed now cards cardId =
     (case find (\<lambda>x. card_id x = cardId) cards of
        None \<Rightarrow> (Inl (notFound cardId), cards)
      | Some c \<Rightarrow> updateCard cards (c\<lparr>lastUsed := Some now\<rparr>))"

text \<open>The writes a caller can issue, and the store each leaves behind.\<close>

datatype operation =
  Add Card | Update Card | Delete string | MarkUsed int string

fun failed :: "(error + 'a) \<times> store \<Rightarrow> bool" where
  "failed (Inl e, s) = True"
| "failed (Inr v, s) = False"

fun succeeds :: "store \<Rightarrow> operation \<Rightarrow> bool" where
  "succeeds s (Add c) = (\<not> failed (addCard s c))"
| "succeeds s (Update c) = (\<not> failed (updateCard s c))"
| "succeeds s (Delete cardId) = (\<not> failed (deleteCard s cardId))"
| "succeeds s (MarkUsed now cardId) = (\<not> failed (updateCardLastUsed now s cardId))"

fun apply_operation :: "store \<Rightarrow> operation \<Rightarrow> store" where
  "apply_operation s (Add c) = snd (addCard s c)"
| "apply_operation s (Update c) = snd (updateCard s c)"
| "apply_operation s (Delete cardId) = snd (deleteCard s cardId)"
| "apply_operation s (MarkUsed now cardId) = snd (updateCardLastUsed now s cardId)"

text \<open>The stores reachable from the empty store by successful operations.\<close>

inductive reachable :: "store \<Rightarrow> bool" where
  reachable_empty: "reachable []"
| reachable_step: "reachable s \<Longrightarrow> succeeds s op \<Longrightarrow> reachable (apply_operation s op)"

text \<open>
  The same, where every \<open>add\<close> is given a card whose id no stored card has (the caller
  generates a fresh id for each new card).
\<close>

fun fresh_add :: "store \<Rightarrow> operation \<Rightarrow> bool" where
  "fresh_add s (Add c) = (card_id c \<notin> set (map card_id s))"
| "fresh_add s _ = True"

inductive reachable_fresh :: "store \<Rightarrow> bool" where
  reachable_fresh_empty: "reachable_fresh []"
| reachable_fresh_step:
    "reachable_fresh s \<Longrightarrow> fresh_add s op \<Longrightarrow> succeeds s op
      \<Longrightarrow> reachable_fresh (apply_operation s op)"

section \<open>AICardSuggester (src/services/AICardSuggester.ts)\<close>

text \<open>
  \<open>a || d\<close> for an optional number \<open>a\<close>: \<open>undefined\<close> and \<open>0\<close> are falsy, every other
  number is truthy.
\<close>

fun numOr :: "real option \<Rightarrow> real \<Rightarrow> real" where
  "numOr None d = d"
| "numOr (Some x) d = (if x = 0 then d else x)"

text \<open>\<open>card.perks[transaction.category]?.length > 0\<close>\<close>

definition hasPerks :: "Card \<Rightarrow> Transaction \<Rightarrow> bool" where
  "hasPerks c t = (case perks c (category t) of None \<Rightarrow> False | Some ps \<Rightarrow> length ps > 0)"

text \<open>
  \<open>now\<close> is the time value that \<open>new Date().getTime()\<close> reads; the division is the
  division of numbers, not of integers.
\<close>

definition calculateScore :: "int \<Rightarrow> Card \<Rightarrow> Transaction \<Rightarrow> real" where
  "calculateScore now c t =
     (let score0 = 0;
          cashbackRate = numOr (cashback c (category t)) 0;
          score1 = (if cashbackRate > 0 then score0 + cashbackRate * 10
                    else (let defaultCashback = numOr (cashback c OTHER) 0
                          in score0 + defaultCashback * 5));
          score2 = (if hasPerks c t then score1 + 5 else score1);
          score3 = (if category t \<in> set (categories c) then score2 + 3 else score2);
          score4 = (case lastUsed c of
                      None \<Rightarrow> score3
                    | Some used \<Rightarrow>
                        (let daysSinceLastUse = real_of_int (now - used) / (1000 * 60 * 60 * 24)
                         in if daysSinceLastUse < 7 then score3 + 1 else score3))
      in score4)"

text \<open>
  \<open>showNumber\<close> is the conversion of a number to a string that a template literal
  applies; it belongs to the language, and is a parameter here.
\<close>

definition generateReason :: "(real \<Rightarrow> string) \<Rightarrow> Card \<Rightarrow> Transaction \<Rightarrow> string" where
  "generateReason showNumber c t =
     (let cashbackRate = numOr (cashback c (category t)) (numOr (cashback c OTHER) 0)
      in if cashbackRate > 0 \<and> hasPerks c t then
           name c @ '' offers '' @ showNumber cashbackRate @ ''% cashback on ''
             @ category_string (category t) @ '' purchases and has additional perks.''
         else if cashbackRate > 0 then
           name c @ '' offers '' @ showNumber cashbackRate @ ''% cashback on ''
             @ category_string (category t) @ '' purchases.''
         else if hasPerks c t then
           name c @ '' offers special perks for '' @ category_string (category t)
             @ '' purchases.''
         else name c @ '' is the best option for this purchase.'')"

text \<open>
  \<open>Array.prototype.sort\<close> with a comparator: the sort is stable, an element goes before
  another when the comparator is negative, and elements that compare equal keep their order.
\<close>

fun insertBy :: "('a \<Rightarrow> 'a \<Rightarrow> real) \<Rightarrow> 'a \<Rightarrow> 'a list \<Rightarrow> 'a list" where
  "insertBy cmp x [] = [x]"
| "insertBy cmp x (y # ys) =
     (if cmp x y \<le> 0 then x # y # ys else y # insertBy cmp x ys)"

fun sortBy :: "('a \<Rightarrow> 'a \<Rightarrow> real) \<Rightarrow> 'a list \<Rightarrow> 'a list" where
  "sortBy cmp [] = []"
| "sortBy cmp (x # xs) = insertBy cmp x (sortBy cmp xs)"

text \<open>The pairs \<open>{ card, score }\<close> and the comparator \<open>(a, b) => b.score - a.score\<close>.\<close>

definition byScoreDesc :: "Card \<times> real \<Rightarrow> Card \<times> real \<Rightarrow> real" where
  "byScoreDesc a b = snd b - snd a"

definition scoredCards :: "int \<Rightarrow> Transaction \<Rightarrow> Card list \<Rightarrow> (Card \<times> real) list" where
  "scoredCards now t cards = sortBy byScoreDesc (map (\<lambda>c. (c, calculateScore now c t)) cards)"

text \<open>
  \<open>suggestCard\<close>; \<open>None\<close> is the result \<open>null\<close>. One reading \<open>now\<close> of the clock serves
  the whole call.
\<close>

definition suggestCard ::
  "(real \<Rightarrow> string) \<Rightarrow> int \<Rightarrow> Transaction \<Rightarrow> Card list \<Rightarrow> CardSuggestion option" where
  "suggestCard showNumber now t cards =
     (if cards = [] then None
      else
        (case scoredCards now t cards of
           [] \<Rightarrow> None
         | best # rest \<Rightarrow>
             (let bestCard = fst best;
                  reasonText = generateReason showNumber bestCard t;
                  cashbackRate = numOr (cashback bestCard (category t)) 0;
                  cashbackValue =
                    (if cashbackRate > 0 then Some (amount t * cashbackRate / 100) else None);
                  perkList = perks bestCard (category t)
              in Some \<lparr>card_sg = bestCard, reason = reasonText,
                       cashbackAmount = cashbackValue, perks_sg = perkList\<rparr>)))"

section \<open>The rules of the specification\<close>

text \<open>
  The definitions of this section follow the words of the specification, not the code;
  the theorems below compare them with the functions of the two services.
\<close>

text \<open>The rate under the category \<open>other\<close> if present, else 0.\<close>

definition other_rate :: "Card \<Rightarrow> real" where
  "other_rate c = (case cashback c OTHER of Some r \<Rightarrow> r | None \<Rightarrow> 0)"

text \<open>The direct-category rate is used when it is present and greater than 0.\<close>

definition direct_rate_used :: "Card \<Rightarrow> Transaction \<Rightarrow> bool" where
  "direct_rate_used c t = (case cashback c (category t) of Some r \<Rightarrow> r > 0 | None \<Rightarrow> False)"

text \<open>Scoring step 1: the effective cashback rate.\<close>

definition effective_rate :: "Card \<Rightarrow> Transaction \<Rightarrow> real" where
  "effective_rate c t =
     (case cashback c (category t) of
        Some r \<Rightarrow> if r > 0 then r else other_rate c
      | None \<Rightarrow> other_rate c)"

text \<open>The perk list for the transaction's category exists and is non-empty.\<close>

definition perks_present :: "Card \<Rightarrow> Transaction \<Rightarrow> bool" where
  "perks_present c t = (case perks c (category t) of Some ps \<Rightarrow> ps \<noteq> [] | None \<Rightarrow> False)"

text \<open>\<open>lastUsed\<close> is set and lies less than 7 days (in milliseconds) before \<open>now\<close>.\<close>

definition recently_used :: "int \<Rightarrow> Card \<Rightarrow> bool" where
  "recently_used now c =
     (case lastUsed c of Some used \<Rightarrow> now - used < 7 * 24 * 60 * 60 * 1000 | None \<Rightarrow> False)"

text \<open>The additive score: weighted rate, perk bonus, preferred-category bonus, recency bonus.\<close>

definition spec_score :: "int \<Rightarrow> Card \<Rightarrow> Transaction \<Rightarrow> real" where
  "spec_score now c t =
     (if direct_rate_used c t then effective_rate c t * 10 else effective_rate c t * 5)
     + (if perks_present c t then 5 else 0)
     + (if category t \<in> set (categories c) then 3 else 0)
     + (if recently_used now c then 1 else 0)"

text \<open>
  The decision table of the reason string, one branch per row, on the effective rate of
  scoring step 1; \<open>None\<close> when no row applies.
\<close>

definition reason_table :: "(real \<Rightarrow> string) \<Rightarrow> Card \<Rightarrow> Transaction \<Rightarrow> string option" where
  "reason_table showNumber c t =
     (let rate = effective_rate c t; p = perks_present c t
      in if rate > 0 \<and> p then
           Some (name c @ '' offers '' @ showNumber rate @ ''% cashback on ''
             @ category_string (category t) @ '' purchases and has additional perks.'')
         else if rate > 0 \<and> \<not> p then
           Some (name c @ '' offers '' @ showNumber rate @ ''% cashback on ''
             @ category_string (category t) @ '' purchases.'')
         else if rate = 0 \<and> p then
           Some (name c @ '' offers special perks for '' @ category_string (category t)
             @ '' purchases.'')
         else if rate = 0 \<and> \<not> p then
           Some (name c @ '' is the best option for this purchase.'')
         else None)"

text \<open>
  Neither the rate of the card under the transaction's category nor its rate under
  \<open>other\<close> is negative (an absent rate is not negative).
\<close>

definition rates_not_negative :: "Card \<Rightarrow> Transaction \<Rightarrow> bool" where
  "rates_not_negative c t =
     ((case cashback c (category t) of Some r \<Rightarrow> 0 \<le> r | None \<Rightarrow> True)
      \<and> (case cashback c OTHER of Some r \<Rightarrow> 0 \<le> r | None \<Rightarrow> True))"

section \<open>Example data\<close>

text \<open>
  Cards A and B and the transaction are those of the specification's scenario; card C
  scores the same as A on that transaction, card O has a rate under \<open>other\<close> only, and
  card N has a negative dining rate, a rate under \<open>other\<close> and a dining perk.
\<close>

definition card_A :: Card where
  "card_A = \<lparr>card_id = ''a'', name = ''A'', number = ''4111111111111111'', expiry = ''12/25'',
     cvv = ''123'', cardholderName = ''John Doe'', cardType = VISA, categories = [],
     cashback = [DINING \<mapsto> 3], perks = Map.empty, color = None, lastUsed = None\<rparr>"

definition card_B :: Card where
  "card_B = \<lparr>card_id = ''b'', name = ''B'', number = ''3782 822463 10005'', expiry = ''06/24'',
     cvv = ''1234'', cardholderName = ''John Doe'', cardType = AMEX, categories = [],
     cashback = [DINING \<mapsto> 0, OTHER \<mapsto> 1], perks = Map.empty, color = None,
     lastUsed = None\<rparr>"

definition card_C :: Card where
  "card_C = \<lparr>card_id = ''c'', name = ''C'', number = ''6011000990139424'', expiry = ''01/27'',
     cvv = ''321'', cardholderName = ''John Doe'', cardType = DISCOVER, categories = [DINING],
     cashback = [DINING \<mapsto> 2.7], perks = Map.empty, color = None, lastUsed = None\<rparr>"

definition card_O :: Card where
  "card_O = \<lparr>card_id = ''o'', name = ''O'', number = ''5555555555554444'', expiry = ''09/26'',
     cvv = ''456'', cardholderName = ''John Doe'', cardType = MASTERCARD, categories = [],
     cashback = [OTHER \<mapsto> 1], perks = Map.empty, color = None, lastUsed = None\<rparr>"

definition card_N :: Card where
  "card_N = \<lparr>card_id = ''n'', name = ''N'', number = ''4012888888881881'', expiry = ''03/28'',
     cvv = ''789'', cardholderName = ''John Doe'', cardType = VISA, categories = [],
     cashback = [DINING \<mapsto> - 1, OTHER \<mapsto> 2], perks = [DINING \<mapsto> [''Dining credit'']],
     color = None, lastUsed = None\<rparr>"

text \<open>A number-to-string conversion that is right on the number 2, the only one it is used on.\<close>

definition show_2 :: "real \<Rightarrow> string" where
  "show_2 r = ''2''"

definition dining_100 :: Transaction where
  "dining_100 = \<lparr>category = DINING, amount = 100, date = None, description = None\<rparr>"

section \<open>Properties of the card store\<close>

subsection \<open>Lookups\<close>

lemma findIndex_None: "(findIndex P xs = None) = (\<forall>x \<in> set xs. \<not> P x)"
  by (induction xs) auto

lemma findIndex_Some:
  "findIndex P xs = Some i \<Longrightarrow> i < length xs \<and> P (xs ! i) \<and> (\<forall>j<i. \<not> P (xs ! j))"
proof (induction xs arbitrary: i)
  case Nil
  then show ?case by simp
next
  case (Cons x xs)
  show ?case
  proof (cases "P x")
    case True
    with Cons.prems show ?thesis by simp
  next
    case False
    with Cons.prems obtain k where k: "findIndex P xs = Some k" "i = Suc k" by auto
    from Cons.IH[OF k(1)] False k(2) show ?thesis
      by (auto simp: less_Suc_eq_0_disj)
  qed
qed

lemma find_findIndex: "find P xs = map_option (\<lambda>i. xs ! i) (findIndex P xs)"
  by (induction xs) (auto simp: option.map_comp comp_def)

lemma find_append_fresh:
  "\<forall>x \<in> set xs. \<not> P x \<Longrightarrow> P y \<Longrightarrow> find P (xs @ [y]) = Some y"
  by (induction xs) auto

lemma id_in_ids: "x \<in> set s \<Longrightarrow> card_id x = k \<Longrightarrow> k \<in> set (map card_id s)"
  by auto

lemma not_in_ids: "k \<notin> set (map card_id s) \<Longrightarrow> \<forall>x \<in> set s. card_id x \<noteq> k"
  by auto

subsection \<open>Validation\<close>

lemma validateCard_lastUsed: "validateCard (c\<lparr>lastUsed := l\<rparr>) = validateCard c"
  by (simp add: validateCard_def)

lemma validateCard_kind: "validateCard c = Some e \<Longrightarrow> \<exists>m. e = ValidationError m"
  by (auto simp: validateCard_def split: if_splits)

lemma valid_A: "validateCard card_A = None"
  by (simp add: validateCard_def card_A_def digitsBetween_def expiryFormat_def isDigit_def
      isSpace_def)

lemma valid_B: "validateCard card_B = None"
  by (simp add: validateCard_def card_B_def digitsBetween_def expiryFormat_def isDigit_def
      isSpace_def)

lemma example_ids: "card_id card_A = ''a''" "card_id card_B = ''b''"
  by (simp_all add: card_A_def card_B_def)

subsection \<open>The outcomes of each write\<close>

lemma addCard_cases:
  "(validateCard c = None \<and> addCard s c = (Inr c, s @ [c]))
   \<or> (\<exists>e. validateCard c = Some e \<and> addCard s c = (Inl e, s))"
  by (cases "validateCard c") (simp_all add: addCard_def)

lemma updateCard_cases:
  "(\<exists>e. validateCard c = Some e \<and> updateCard s c = (Inl e, s))
   \<or> (validateCard c = None \<and> card_id c \<notin> set (map card_id s)
        \<and> updateCard s c = (Inl (notFound (card_id c)), s))
   \<or> (\<exists>i. validateCard c = None \<and> findIndex (\<lambda>x. card_id x = card_id c) s = Some i
        \<and> card_id c \<in> set (map card_id s) \<and> i < length s \<and> card_id (s ! i) = card_id c
        \<and> updateCard s c = (Inr c, s[i := c]))"
proof (cases "validateCard c")
  case (Some e)
  then show ?thesis by (simp add: updateCard_def)
next
  case None
  show ?thesis
  proof (cases "findIndex (\<lambda>x. card_id x = card_id c) s")
    case N: None
    then have "card_id c \<notin> set (map card_id s)"
      by (auto simp: findIndex_None)
    with None N show ?thesis by (simp add: updateCard_def)
  next
    case (Some i)
    from findIndex_Some[OF Some] have "s ! i \<in> set s" "card_id (s ! i) = card_id c"
      by simp_all
    then have "card_id c \<in> set (map card_id s)" by (rule id_in_ids)
    with findIndex_Some[OF Some] None Some show ?thesis
      by (simp add: updateCard_def)
  qed
qed

lemma deleteCard_cases:
  "(cid \<notin> set (map card_id s) \<and> deleteCard s cid = (Inl (notFound cid), s))
   \<or> (cid \<in> set (map card_id s)
        \<and> deleteCard s cid = (Inr True, filter (\<lambda>x. card_id x \<noteq> cid) s))"
proof (cases "findIndex (\<lambda>x. card_id x = cid) s")
  case None
  then have "cid \<notin> set (map card_id s)" by (auto simp: findIndex_None)
  with None show ?thesis by (simp add: deleteCard_def)
next
  case (Some i)
  from findIndex_Some[OF Some] have "s ! i \<in> set s" "card_id (s ! i) = cid" by simp_all
  then have "cid \<in> set (map card_id s)" by (rule id_in_ids)
  with Some show ?thesis by (simp add: deleteCard_def)
qed

lemma markUsed_cases:
  "(cid \<notin> set (map card_id s) \<and> updateCardLastUsed now s cid = (Inl (notFound cid), s))
   \<or> (\<exists>i. findIndex (\<lambda>x. card_id x = cid) s = Some i \<and> i < length s \<and> card_id (s ! i) = cid
        \<and> cid \<in> set (map card_id s)
        \<and> updateCardLastUsed now s cid = updateCard s ((s ! i)\<lparr>lastUsed := Some now\<rparr>))"
proof (cases "findIndex (\<lambda>x. card_id x = cid) s")
  case None
  then have "cid \<notin> set (map card_id s)" by (auto simp: findIndex_None)
  with None show ?thesis by (simp add: updateCardLastUsed_def find_findIndex)
next
  case (Some i)
  from findIndex_Some[OF Some] have "s ! i \<in> set s" "card_id (s ! i) = cid" by simp_all
  then have "cid \<in> set (map card_id s)" by (rule id_in_ids)
  with findIndex_Some[OF Some] Some show ?thesis
    by (simp add: updateCardLastUsed_def find_findIndex)
qed

lemma markUsed_result:
  "(cid \<notin> set (map card_id s) \<and> updateCardLastUsed now s cid = (Inl (notFound cid), s))
   \<or> (\<exists>i e. i < length s \<and> card_id (s ! i) = cid \<and> validateCard (s ! i) = Some e
        \<and> cid \<in> set (map card_id s)
        \<and> updateCardLastUsed now s cid = (Inl e, s))
   \<or> (\<exists>i. i < length s \<and> card_id (s ! i) = cid \<and> validateCard (s ! i) = None
        \<and> cid \<in> set (map card_id s)
        \<and> updateCardLastUsed now s cid
            = (Inr ((s ! i)\<lparr>lastUsed := Some now\<rparr>), s[i := (s ! i)\<lparr>lastUsed := Some now\<rparr>]))"
proof -
  consider (absent) "cid \<notin> set (map card_id s)"
      "updateCardLastUsed now s cid = (Inl (notFound cid), s)"
    | (present) i where "findIndex (\<lambda>x. card_id x = cid) s = Some i" "i < length s"
      "card_id (s ! i) = cid" "cid \<in> set (map card_id s)"
      "updateCardLastUsed now s cid = updateCard s ((s ! i)\<lparr>lastUsed := Some now\<rparr>)"
    using markUsed_cases[of cid s now] by blast
  then show ?thesis
  proof cases
    case absent
    then show ?thesis by simp
  next
    case present
    show ?thesis
    proof (cases "validateCard (s ! i)")
      case None
      with present have "updateCard s ((s ! i)\<lparr>lastUsed := Some now\<rparr>)
          = (Inr ((s ! i)\<lparr>lastUsed := Some now\<rparr>), s[i := (s ! i)\<lparr>lastUsed := Some now\<rparr>])"
        by (simp add: updateCard_def validateCard_lastUsed)
      with present None show ?thesis by auto
    next
      case (Some e)
      with present have "updateCard s ((s ! i)\<lparr>lastUsed := Some now\<rparr>) = (Inl e, s)"
        by (simp add: updateCard_def validateCard_lastUsed)
      with present Some show ?thesis by auto
    qed
  qed
qed

lemma add_A: "addCard [] card_A = (Inr card_A, [card_A])"
  by (simp add: addCard_def valid_A)

lemma add_A_again: "addCard [card_A] card_A = (Inr card_A, [card_A, card_A])"
  by (simp add: addCard_def valid_A)

lemma add_B: "addCard [card_A] card_B = (Inr card_B, [card_A, card_B])"
  by (simp add: addCard_def valid_B)

lemma reachable_A: "reachable [card_A]"
  using reachable_step[OF reachable_empty, of "Add card_A"] by (simp add: add_A)

lemma reachable_fresh_A: "reachable_fresh [card_A]"
  using reachable_fresh_step[OF reachable_fresh_empty, of "Add card_A"] by (simp add: add_A)

lemma markUsed_A:
  "updateCardLastUsed now [card_B, card_A] ''a''
     = (Inr (card_A\<lparr>lastUsed := Some now\<rparr>), [card_B, card_A\<lparr>lastUsed := Some now\<rparr>])"
  by (simp add: updateCardLastUsed_def updateCard_def validateCard_lastUsed valid_A example_ids)

lemma update_A:
  "updateCard [card_B, card_A] (card_A\<lparr>lastUsed := Some l\<rparr>)
     = (Inr (card_A\<lparr>lastUsed := Some l\<rparr>), [card_B, card_A\<lparr>lastUsed := Some l\<rparr>])"
  by (simp add: updateCard_def validateCard_lastUsed valid_A example_ids)

lemma lastUsed_A: "lastUsed card_A = None"
  by (simp add: card_A_def)

subsection \<open>Ids of the stored cards\<close>

lemma updateCard_ids: "map card_id (snd (updateCard s c)) = map card_id s"
proof -
  have "i < length s \<Longrightarrow> card_id (s ! i) = card_id c \<Longrightarrow>
      map card_id (s[i := c]) = map card_id s" for i
    by (simp add: map_update list_update_same_conv)
  then show ?thesis
    using updateCard_cases[of c s] by auto
qed

lemma markUsed_ids: "map card_id (snd (updateCardLastUsed now s cid)) = map card_id s"
  using markUsed_cases[of cid s now] updateCard_ids by auto

lemma step_distinct:
  assumes "distinct (map card_id s)" and "fresh_add s op"
  shows "distinct (map card_id (apply_operation s op))"
proof (cases op)
  case (Add c)
  with assms addCard_cases[of c s] show ?thesis by auto
next
  case (Update c)
  with assms show ?thesis by (simp add: updateCard_ids)
next
  case (Delete cid)
  with assms deleteCard_cases[of cid s] show ?thesis
    by (auto simp: distinct_map_filter)
next
  case (MarkUsed now cid)
  with assms show ?thesis by (simp add: markUsed_ids)
qed

lemma reachable_fresh_distinct: "reachable_fresh s \<Longrightarrow> distinct (map card_id s)"
  by (induction rule: reachable_fresh.induct) (simp_all add: step_distinct)

text \<open>
  Claim C1 as stated fails: \<open>validateCard\<close> has no check of the id against the stored
  cards, so adding card A twice succeeds both times, and the store then holds two cards
  with the id of A.
\<close>

theorem duplicate_id_accepted:
  "reachable [card_A, card_A] \<and> \<not> distinct (map card_id [card_A, card_A])
   \<and> addCard [card_A] card_A = (Inr card_A, [card_A, card_A])"
  using reachable_step[OF reachable_A, of "Add card_A"] by (simp add: add_A_again)

text \<open>
  Claim C1, amended. In every store reachable from the empty store by successful
  operations in which each \<open>add\<close> is given a card whose id no stored card has, the ids of
  the stored cards are pairwise distinct. \<open>add\<close> itself compares no ids: given a card
  that passes validation it succeeds and appends the card, whatever ids are stored.
\<close>

theorem ids_distinct_when_adds_fresh:
  "(reachable_fresh s \<longrightarrow> distinct (map card_id s))
   \<and> (validateCard c = None \<longrightarrow> addCard s c = (Inr c, s @ [c]))"
  using reachable_fresh_distinct addCard_cases[of c s] by auto

theorem ids_distinct_when_adds_fresh_witness:
  "reachable_fresh [card_A] \<and> distinct (map card_id [card_A])
   \<and> validateCard card_B = None \<and> addCard [card_A] card_B = (Inr card_B, [card_A] @ [card_B])"
  using ids_distinct_when_adds_fresh[of "[card_A]" card_B] reachable_fresh_A valid_B
  by blast

subsection \<open>Failing writes\<close>

lemma failed_unchanged:
  assumes "\<not> succeeds s op"
  shows "apply_operation s op = s"
proof (cases op)
  case (Add c)
  with assms addCard_cases[of c s] show ?thesis by auto
next
  case (Update c)
  with assms updateCard_cases[of c s] show ?thesis by auto
next
  case (Delete cid)
  with assms deleteCard_cases[of cid s] show ?thesis by auto
next
  case (MarkUsed now cid)
  with assms markUsed_result[of cid s now] show ?thesis by auto
qed

text \<open>
  Claim C6. A write that fails leaves the sequence returned by \<open>getCards\<close> as it was,
  whichever of the four writes it is. An \<open>add\<close> or \<open>update\<close> of a card that
  \<open>validateCard\<close> rejects fails with that validation error; a \<open>delete\<close> or \<open>markUsed\<close>
  of an id that no stored card has, and an \<open>update\<close> of a card that passes validation
  and has such an id, fail with the not-found error.
\<close>

theorem failing_write_leaves_store:
  "(\<not> succeeds s op \<longrightarrow> getCards (apply_operation s op) = getCards s)
   \<and> (validateCard c = Some e \<longrightarrow>
        (\<exists>m. e = ValidationError m) \<and> addCard s c = (Inl e, s) \<and> updateCard s c = (Inl e, s))
   \<and> (cid \<notin> set (map card_id s) \<longrightarrow>
        deleteCard s cid = (Inl (notFound cid), s)
        \<and> updateCardLastUsed now s cid = (Inl (notFound cid), s)
        \<and> (validateCard c' = None \<and> card_id c' = cid \<longrightarrow>
             updateCard s c' = (Inl (notFound cid), s)))"
proof -
  have 1: "\<not> succeeds s op \<longrightarrow> getCards (apply_operation s op) = getCards s"
    by (simp add: failed_unchanged)
  have 2: "validateCard c = Some e \<longrightarrow>
        (\<exists>m. e = ValidationError m) \<and> addCard s c = (Inl e, s) \<and> updateCard s c = (Inl e, s)"
    using validateCard_kind[of c e] by (simp add: addCard_def updateCard_def)
  have 3: "cid \<notin> set (map card_id s) \<longrightarrow> deleteCard s cid = (Inl (notFound cid), s)"
    using deleteCard_cases[of cid s] by auto
  have 4: "cid \<notin> set (map card_id s) \<longrightarrow>
      updateCardLastUsed now s cid = (Inl (notFound cid), s)"
    using markUsed_cases[of cid s now] by auto
  have 5: "cid \<notin> set (map card_id s) \<longrightarrow> validateCard c' = None \<and> card_id c' = cid \<longrightarrow>
             updateCard s c' = (Inl (notFound cid), s)"
    using updateCard_cases[of c' s] by auto
  from 1 2 3 4 5 show ?thesis by blast
qed

theorem failing_write_leaves_store_witness:
  "\<not> succeeds [card_A] (Delete ''b'')
   \<and> getCards (apply_operation [card_A] (Delete ''b'')) = getCards [card_A]
   \<and> validateCard (card_A\<lparr>name := []\<rparr>) = Some (ValidationError ''Card name is required'')
   \<and> addCard [card_A] (card_A\<lparr>name := []\<rparr>)
       = (Inl (ValidationError ''Card name is required''), [card_A])
   \<and> updateCard [card_A] (card_A\<lparr>name := []\<rparr>)
       = (Inl (ValidationError ''Card name is required''), [card_A])
   \<and> ''b'' \<notin> set (map card_id [card_A])
   \<and> deleteCard [card_A] ''b'' = (Inl (notFound ''b''), [card_A])
   \<and> updateCardLastUsed 5 [card_A] ''b'' = (Inl (notFound ''b''), [card_A])
   \<and> validateCard card_B = None \<and> card_id card_B = ''b''
   \<and> updateCard [card_A] card_B = (Inl (notFound ''b''), [card_A])"
proof -
  have absent: "''b'' \<notin> set (map card_id [card_A])"
    by (simp add: example_ids)
  have fails: "\<not> succeeds [card_A] (Delete ''b'')"
    by (simp add: deleteCard_def example_ids)
  have rejected: "validateCard (card_A\<lparr>name := []\<rparr>)
      = Some (ValidationError ''Card name is required'')"
    by (simp add: validateCard_def card_A_def)
  from failing_write_leaves_store[of "[card_A]" "Delete ''b''" "card_A\<lparr>name := []\<rparr>"
      "ValidationError ''Card name is required''" "''b''" 5 card_B]
    absent fails rejected valid_B example_ids(2)
  show ?thesis by blast
qed

subsection \<open>Stored cards pass validation\<close>

lemma step_valid:
  assumes "\<forall>c \<in> set s. validateCard c = None"
  shows "\<forall>c \<in> set (apply_operation s op). validateCard c = None"
proof (cases op)
  case (Add c)
  with assms addCard_cases[of c s] show ?thesis by auto
next
  case (Update c)
  with assms updateCard_cases[of c s] show ?thesis
    by (auto dest!: set_update_subset_insert[THEN subsetD])
next
  case (Delete cid)
  with assms deleteCard_cases[of cid s] show ?thesis by auto
next
  case (MarkUsed now cid)
  with assms markUsed_result[of cid s now] show ?thesis
    by (auto dest!: set_update_subset_insert[THEN subsetD] simp: validateCard_lastUsed)
qed

lemma reachable_valid: "reachable s \<Longrightarrow> \<forall>c \<in> set s. validateCard c = None"
  by (induction rule: reachable.induct) (simp_all add: step_valid)

text \<open>
  Claim C7. In a store reachable from the empty store by successful operations,
  \<open>updateCardLastUsed\<close> called with the id of a stored card returns a card: the lookup
  finds the card, and the validation that \<open>updateCard\<close> runs again accepts it, since the
  stored card passed it and only \<open>lastUsed\<close> differs.
\<close>

theorem markUsed_never_fails:
  assumes "reachable s" and "cid \<in> set (map card_id s)"
  shows "\<exists>c. fst (updateCardLastUsed now s cid) = Inr c"
proof -
  from reachable_valid[OF assms(1)] have "\<And>i. i < length s \<Longrightarrow> validateCard (s ! i) = None"
    by simp
  with assms(2) markUsed_result[of cid s now] show ?thesis by auto
qed

theorem markUsed_never_fails_witness:
  "reachable [card_A] \<and> ''a'' \<in> set (map card_id [card_A])
   \<and> (\<exists>c. fst (updateCardLastUsed 5 [card_A] ''a'') = Inr c)"
proof -
  have a: "''a'' \<in> set (map card_id [card_A])" by (simp add: example_ids)
  from markUsed_never_fails[OF reachable_A a, of 5] reachable_A a show ?thesis by blast
qed

subsection \<open>Adding and looking up\<close>

text \<open>
  Claim C8. For every store and every card that passes validation and whose id no stored
  card has, \<open>addCard\<close> returns the card, and \<open>getCardById\<close> on the resulting store, with
  the id of the card, returns the card supplied.
\<close>

theorem add_then_getById:
  assumes "validateCard c = None" and "card_id c \<notin> set (map card_id s)"
  shows "fst (addCard s c) = Inr c \<and> getCardById (snd (addCard s c)) (card_id c) = Some c"
proof -
  from assms(1) have "addCard s c = (Inr c, s @ [c])" by (simp add: addCard_def)
  moreover from assms(2) have "find (\<lambda>x. card_id x = card_id c) (s @ [c]) = Some c"
    by (intro find_append_fresh not_in_ids) simp_all
  ultimately show ?thesis by (simp add: getCardById_def)
qed

theorem add_then_getById_witness:
  "validateCard card_B = None \<and> card_id card_B \<notin> set (map card_id [card_A])
   \<and> fst (addCard [card_A] card_B) = Inr card_B
   \<and> getCardById (snd (addCard [card_A] card_B)) (card_id card_B) = Some card_B"
proof -
  have f: "card_id card_B \<notin> set (map card_id [card_A])" by (simp add: example_ids)
  from add_then_getById[OF valid_B f] valid_B f show ?thesis by blast
qed

subsection \<open>What a write changes\<close>

text \<open>
  Claim C10. \<open>updateCardLastUsed\<close> with the id of a stored card keeps the length of the
  stored sequence, and there is a position holding a card of that id such that the card at
  every other position is unchanged and the card at that position differs from the old
  one in \<open>lastUsed\<close> at most; when the call succeeds, \<open>lastUsed\<close> there is the current time.
\<close>

theorem markUsed_frame:
  assumes "cid \<in> set (map card_id s)"
  shows "\<exists>i<length s. card_id (s ! i) = cid
      \<and> length (snd (updateCardLastUsed now s cid)) = length s
      \<and> (\<forall>j<length s. j \<noteq> i \<longrightarrow> snd (updateCardLastUsed now s cid) ! j = s ! j)
      \<and> snd (updateCardLastUsed now s cid) ! i
          = (s ! i)\<lparr>lastUsed := lastUsed (snd (updateCardLastUsed now s cid) ! i)\<rparr>
      \<and> (succeeds s (MarkUsed now cid) \<longrightarrow>
            lastUsed (snd (updateCardLastUsed now s cid) ! i) = Some now)"
proof -
  consider (invalid) i e where "i < length s" "card_id (s ! i) = cid"
      "updateCardLastUsed now s cid = (Inl e, s)"
    | (updated) i where "i < length s" "card_id (s ! i) = cid"
      "updateCardLastUsed now s cid
        = (Inr ((s ! i)\<lparr>lastUsed := Some now\<rparr>), s[i := (s ! i)\<lparr>lastUsed := Some now\<rparr>])"
    using markUsed_result[of cid s now] assms by blast
  then show ?thesis
  proof cases
    case invalid
    then show ?thesis by (intro exI[of _ i]) simp
  next
    case updated
    then show ?thesis by (intro exI[of _ i]) simp
  qed
qed

theorem markUsed_frame_witness:
  "''a'' \<in> set (map card_id [card_B, card_A])
   \<and> succeeds [card_B, card_A] (MarkUsed 5 ''a'')
   \<and> (\<exists>i<length [card_B, card_A]. card_id ([card_B, card_A] ! i) = ''a''
      \<and> length (snd (updateCardLastUsed 5 [card_B, card_A] ''a'')) = length [card_B, card_A]
      \<and> (\<forall>j<length [card_B, card_A]. j \<noteq> i \<longrightarrow>
            snd (updateCardLastUsed 5 [card_B, card_A] ''a'') ! j = [card_B, card_A] ! j)
      \<and> snd (updateCardLastUsed 5 [card_B, card_A] ''a'') ! i
          = ([card_B, card_A] ! i)
              \<lparr>lastUsed := lastUsed (snd (updateCardLastUsed 5 [card_B, card_A] ''a'') ! i)\<rparr>
      \<and> lastUsed (snd (updateCardLastUsed 5 [card_B, card_A] ''a'') ! i) = Some 5)"
proof -
  have a: "''a'' \<in> set (map card_id [card_B, card_A])" by (simp add: example_ids)
  have b: "succeeds [card_B, card_A] (MarkUsed 5 ''a'')" by (simp add: markUsed_A)
  from markUsed_frame[OF a, of 5] a b show ?thesis by blast
qed

text \<open>
  Claim C3 as stated fails: \<open>updateCard\<close> stores the card it is given as it is, so an
  update of card A with another \<open>lastUsed\<close> succeeds and changes the \<open>lastUsed\<close> of the
  stored card.
\<close>

theorem update_alters_lastUsed:
  "fst (updateCard [card_B, card_A] (card_A\<lparr>lastUsed := Some 5\<rparr>))
     = Inr (card_A\<lparr>lastUsed := Some 5\<rparr>)
   \<and> map lastUsed [card_B, card_A] ! 1 = None
   \<and> map lastUsed (snd (updateCard [card_B, card_A] (card_A\<lparr>lastUsed := Some 5\<rparr>))) ! 1
       = Some 5"
  by (simp add: update_A lastUsed_A)

text \<open>
  Claim C3, amended. The \<open>lastUsed\<close> of a stored card changes only at a \<open>markUsed\<close> call
  on that card's id, which sets it to the current time, or at an \<open>update\<close> call with a
  card of that id, which puts the supplied card, its \<open>lastUsed\<close> included, in the place
  of the stored one. \<open>add\<close> leaves every stored card as it is, and every card that
  \<open>delete\<close> leaves in the store is as it was.
\<close>

theorem lastUsed_changes_only_by_markUsed_or_update:
  "(\<forall>i<length s. snd (addCard s c) ! i = s ! i)
   \<and> snd (deleteCard s cid) = filter (\<lambda>x. card_id x \<noteq> cid) s
   \<and> length (snd (updateCard s c)) = length s
   \<and> (\<forall>i<length s. snd (updateCard s c) ! i \<noteq> s ! i \<longrightarrow>
         card_id (s ! i) = card_id c \<and> snd (updateCard s c) ! i = c)
   \<and> length (snd (updateCardLastUsed now s cid)) = length s
   \<and> (\<forall>i<length s. snd (updateCardLastUsed now s cid) ! i \<noteq> s ! i \<longrightarrow>
         card_id (s ! i) = cid
         \<and> snd (updateCardLastUsed now s cid) ! i = (s ! i)\<lparr>lastUsed := Some now\<rparr>)"
proof -
  have 1: "\<forall>i<length s. snd (addCard s c) ! i = s ! i"
    using addCard_cases[of c s] by (auto simp: nth_append)
  have "cid \<notin> set (map card_id s) \<Longrightarrow> filter (\<lambda>x. card_id x \<noteq> cid) s = s"
    by (induction s) auto
  then have 2: "snd (deleteCard s cid) = filter (\<lambda>x. card_id x \<noteq> cid) s"
    using deleteCard_cases[of cid s] by auto
  have 3: "length (snd (updateCard s c)) = length s"
    using updateCard_cases[of c s] by auto
  have 4: "\<forall>i<length s. snd (updateCard s c) ! i \<noteq> s ! i \<longrightarrow>
         card_id (s ! i) = card_id c \<and> snd (updateCard s c) ! i = c"
    using updateCard_cases[of c s] by (auto simp: nth_list_update split: if_splits)
  have 5: "length (snd (updateCardLastUsed now s cid)) = length s"
    using markUsed_result[of cid s now] by auto
  have 6: "\<forall>i<length s. snd (updateCardLastUsed now s cid) ! i \<noteq> s ! i \<longrightarrow>
         card_id (s ! i) = cid
         \<and> snd (updateCardLastUsed now s cid) ! i = (s ! i)\<lparr>lastUsed := Some now\<rparr>"
    using markUsed_result[of cid s now] by (auto simp: nth_list_update split: if_splits)
  from 1 2 3 4 5 6 show ?thesis by blast
qed

theorem lastUsed_changes_only_by_markUsed_or_update_witness:
  "(1::nat) < length [card_B, card_A]
   \<and> snd (updateCard [card_B, card_A] (card_A\<lparr>lastUsed := Some 5\<rparr>)) ! 1 \<noteq> [card_B, card_A] ! 1
   \<and> snd (updateCardLastUsed 7 [card_B, card_A] ''a'') ! 1 \<noteq> [card_B, card_A] ! 1
   \<and> card_id ([card_B, card_A] ! 1) = card_id (card_A\<lparr>lastUsed := Some 5\<rparr>)
   \<and> snd (updateCard [card_B, card_A] (card_A\<lparr>lastUsed := Some 5\<rparr>)) ! 1
       = card_A\<lparr>lastUsed := Some 5\<rparr>
   \<and> card_id ([card_B, card_A] ! 1) = ''a''
   \<and> snd (updateCardLastUsed 7 [card_B, card_A] ''a'') ! 1
       = ([card_B, card_A] ! 1)\<lparr>lastUsed := Some 7\<rparr>"
proof -
  have differs: "card_A\<lparr>lastUsed := Some l\<rparr> \<noteq> card_A" for l
  proof
    assume "card_A\<lparr>lastUsed := Some l\<rparr> = card_A"
    then have "lastUsed (card_A\<lparr>lastUsed := Some l\<rparr>) = lastUsed card_A" by simp
    then show False by (simp add: lastUsed_A)
  qed
  have len: "(1::nat) < length [card_B, card_A]" by simp
  have u: "snd (updateCard [card_B, card_A] (card_A\<lparr>lastUsed := Some 5\<rparr>)) ! 1
      \<noteq> [card_B, card_A] ! 1"
    by (simp add: update_A differs)
  have m: "snd (updateCardLastUsed 7 [card_B, card_A] ''a'') ! 1 \<noteq> [card_B, card_A] ! 1"
    by (simp add: markUsed_A differs)
  from lastUsed_changes_only_by_markUsed_or_update
      [of "[card_B, card_A]" "card_A\<lparr>lastUsed := Some 5\<rparr>" "''a''" 7]
    len u m
  show ?thesis by blast
qed

section \<open>Properties of the suggester\<close>

subsection \<open>The score\<close>

lemma hasPerks_present: "hasPerks c t = perks_present c t"
  by (simp add: hasPerks_def perks_present_def split: option.splits)

lemma days_less_7:
  "(real_of_int d / (1000 * 60 * 60 * 24) < 7) = (d < 7 * 24 * 60 * 60 * 1000)"
proof -
  have "(real_of_int d / 86400000 < 7) = (real_of_int d < 7 * 86400000)"
    by (simp add: divide_less_eq)
  also have "\<dots> = (d < 604800000)" by linarith
  finally show ?thesis by simp
qed

lemma score_A: "calculateScore 0 card_A dining_100 = 30"
  by (simp add: calculateScore_def card_A_def dining_100_def hasPerks_def)

lemma score_B: "calculateScore 0 card_B dining_100 = 5"
  by (simp add: calculateScore_def card_B_def dining_100_def hasPerks_def)

lemma score_C: "calculateScore 0 card_C dining_100 = 30"
  by (simp add: calculateScore_def card_C_def dining_100_def hasPerks_def)

text \<open>
  Claim C4. For every card and transaction, the score computed by \<open>calculateScore\<close> is
  the sum of: the direct-category rate times 10 if that rate is present and greater than
  0, otherwise the rate under \<open>other\<close> (0 if absent) times 5; 5 if the perk list for the
  category exists and is non-empty; 3 if the category is among the card's categories; and
  1 if \<open>lastUsed\<close> is set and less than 7 days before now.
\<close>

theorem score_is_sum: "calculateScore now c t = spec_score now c t"
  unfolding calculateScore_def spec_score_def Let_def hasPerks_present
    direct_rate_used_def effective_rate_def other_rate_def recently_used_def days_less_7
  by (cases "cashback c (category t)"; cases "cashback c OTHER"; cases "lastUsed c"; simp)

theorem score_is_sum_witness:
  "spec_score 0 card_A dining_100 = 30 \<and> spec_score 0 card_B dining_100 = 5"
  using score_is_sum[of 0 card_A dining_100] score_is_sum[of 0 card_B dining_100]
    score_A score_B
  by simp

subsection \<open>The ranking\<close>

lemma length_insertBy: "length (insertBy cmp x ys) = Suc (length ys)"
  by (induction ys) simp_all

lemma length_sortBy: "length (sortBy cmp xs) = length xs"
  by (induction xs) (simp_all add: length_insertBy)

lemma set_insertBy: "set (insertBy cmp x ys) = insert x (set ys)"
  by (induction ys) auto

lemma sorted_insertBy:
  "sorted_wrt (\<lambda>a b. snd b \<le> snd a) ys
    \<Longrightarrow> sorted_wrt (\<lambda>a b. snd b \<le> snd a) (insertBy byScoreDesc x ys)"
  by (induction ys) (auto simp: set_insertBy byScoreDesc_def)

lemma sorted_sortBy: "sorted_wrt (\<lambda>a b. snd b \<le> snd a) (sortBy byScoreDesc xs)"
  by (induction xs) (simp_all add: sorted_insertBy)

lemma filter_insertBy:
  "filter (\<lambda>e. snd e = k) (insertBy byScoreDesc x ys)
     = (if snd x = k then x # filter (\<lambda>e. snd e = k) ys else filter (\<lambda>e. snd e = k) ys)"
  by (induction ys) (auto simp: byScoreDesc_def)

lemma stable_sortBy:
  "filter (\<lambda>e. snd e = k) (sortBy byScoreDesc xs) = filter (\<lambda>e. snd e = k) xs"
  by (induction xs) (simp_all add: filter_insertBy)

lemma hd_sortBy:
  "xs \<noteq> [] \<Longrightarrow> \<exists>i<length xs. hd (sortBy byScoreDesc xs) = xs ! i
      \<and> (\<forall>j<length xs. snd (xs ! j) \<le> snd (xs ! i))
      \<and> (\<forall>j<i. snd (xs ! j) < snd (xs ! i))"
proof (induction xs)
  case Nil
  then show ?case by simp
next
  case (Cons x xs)
  show ?case
  proof (cases "xs = []")
    case True
    then show ?thesis by simp
  next
    case False
    from Cons.IH[OF False] obtain i where i: "i < length xs"
      "hd (sortBy byScoreDesc xs) = xs ! i"
      "\<forall>j<length xs. snd (xs ! j) \<le> snd (xs ! i)"
      "\<forall>j<i. snd (xs ! j) < snd (xs ! i)"
      by blast
    from False have "sortBy byScoreDesc xs \<noteq> []"
      using length_sortBy[of byScoreDesc xs] by auto
    then obtain rest where rest: "sortBy byScoreDesc xs = xs ! i # rest"
      using i(2) by (cases "sortBy byScoreDesc xs") auto
    have h: "hd (sortBy byScoreDesc (x # xs)) = (if snd (xs ! i) \<le> snd x then x else xs ! i)"
      by (simp add: rest byScoreDesc_def)
    show ?thesis
    proof (cases "snd (xs ! i) \<le> snd x")
      case True
      have "\<forall>j<length (x # xs). snd ((x # xs) ! j) \<le> snd x"
      proof (intro allI impI)
        fix j assume "j < length (x # xs)"
        then show "snd ((x # xs) ! j) \<le> snd x"
          using i(3) True by (cases j) (auto intro: order_trans)
      qed
      with True h show ?thesis by (intro exI[of _ 0]) simp
    next
      case F: False
      have a: "\<forall>j<length (x # xs). snd ((x # xs) ! j) \<le> snd (xs ! i)"
      proof (intro allI impI)
        fix j assume "j < length (x # xs)"
        then show "snd ((x # xs) ! j) \<le> snd (xs ! i)"
          using i(3) F by (cases j) auto
      qed
      have b: "\<forall>j<Suc i. snd ((x # xs) ! j) < snd (xs ! i)"
      proof (intro allI impI)
        fix j assume "j < Suc i"
        then show "snd ((x # xs) ! j) < snd (xs ! i)"
          using i(4) F by (cases j) auto
      qed
      from F h a b i(1) show ?thesis by (intro exI[of _ "Suc i"]) simp
    qed
  qed
qed

text \<open>
  Claim C9. \<open>suggestCard\<close> on a non-empty list returns a suggestion whose card stands
  at a position of the input such that no card scores higher and every card before that
  position scores strictly lower: of the cards with the highest score, the one that comes
  first in the input. The ranked list it selects from is in descending order of score, and
  cards of equal score stand in it in their input order.
\<close>

theorem suggest_first_of_best:
  assumes "cards \<noteq> []"
  shows "\<exists>sg i. suggestCard showNumber now t cards = Some sg
      \<and> i < length cards \<and> card_sg sg = cards ! i
      \<and> (\<forall>j<length cards. calculateScore now (cards ! j) t \<le> calculateScore now (cards ! i) t)
      \<and> (\<forall>j<i. calculateScore now (cards ! j) t < calculateScore now (cards ! i) t)
      \<and> sorted_wrt (\<lambda>a b. snd b \<le> snd a) (scoredCards now t cards)
      \<and> (\<forall>k. filter (\<lambda>e. snd e = k) (scoredCards now t cards)
               = filter (\<lambda>e. snd e = k) (map (\<lambda>c. (c, calculateScore now c t)) cards))"
proof -
  let ?xs = "map (\<lambda>c. (c, calculateScore now c t)) cards"
  from assms have ne: "?xs \<noteq> []" by simp
  from hd_sortBy[OF ne] obtain i where i: "i < length cards"
    "hd (sortBy byScoreDesc ?xs) = ?xs ! i"
    "\<forall>j<length ?xs. snd (?xs ! j) \<le> snd (?xs ! i)"
    "\<forall>j<i. snd (?xs ! j) < snd (?xs ! i)"
    by auto
  from ne have "sortBy byScoreDesc ?xs \<noteq> []"
    using length_sortBy[of byScoreDesc ?xs] by auto
  then obtain best rest where br: "scoredCards now t cards = best # rest"
    by (cases "sortBy byScoreDesc ?xs") (auto simp: scoredCards_def)
  with i(2) have best: "fst best = cards ! i"
    using i(1) by (simp add: scoredCards_def)
  from assms br obtain sg where sg: "suggestCard showNumber now t cards = Some sg"
    "card_sg sg = fst best"
    by (simp add: suggestCard_def Let_def)
  have le: "\<forall>j<length cards. calculateScore now (cards ! j) t \<le> calculateScore now (cards ! i) t"
    using i(1) i(3) by simp
  have lt: "\<forall>j<i. calculateScore now (cards ! j) t < calculateScore now (cards ! i) t"
    using i(1) i(4) by simp
  have so: "sorted_wrt (\<lambda>a b. snd b \<le> snd a) (scoredCards now t cards)"
    by (simp add: scoredCards_def sorted_sortBy)
  have st: "\<forall>k. filter (\<lambda>e. snd e = k) (scoredCards now t cards) = filter (\<lambda>e. snd e = k) ?xs"
    by (simp add: scoredCards_def stable_sortBy)
  show ?thesis
  proof (intro exI[of _ sg] exI[of _ i] conjI)
    show "suggestCard showNumber now t cards = Some sg" by (rule sg(1))
    show "i < length cards" by (rule i(1))
    show "card_sg sg = cards ! i" using sg(2) best by simp
  qed (rule le lt so st)+
qed

theorem suggest_first_of_best_witness:
  "[card_C, card_A] \<noteq> []
   \<and> calculateScore 0 card_C dining_100 = calculateScore 0 card_A dining_100
   \<and> (\<exists>sg. suggestCard (\<lambda>r. ''2.7'') 0 dining_100 [card_C, card_A] = Some sg
         \<and> card_sg sg = card_C)"
proof -
  have ne: "[card_C, card_A] \<noteq> []" by simp
  from suggest_first_of_best[OF ne, of "\<lambda>r. ''2.7''" 0 dining_100]
  obtain sg i where sg: "suggestCard (\<lambda>r. ''2.7'') 0 dining_100 [card_C, card_A] = Some sg"
    "i < length [card_C, card_A]" "card_sg sg = [card_C, card_A] ! i"
    "\<forall>j<i. calculateScore 0 ([card_C, card_A] ! j) dining_100
        < calculateScore 0 ([card_C, card_A] ! i) dining_100"
    by blast
  have "i = 0"
  proof (rule ccontr)
    assume "i \<noteq> 0"
    with sg(2) have i1: "i = 1" by simp
    from sg(4) i1 have "calculateScore 0 ([card_C, card_A] ! 0) dining_100
        < calculateScore 0 ([card_C, card_A] ! 1) dining_100" by blast
    then show False by (simp add: score_A score_C)
  qed
  with sg(1) sg(3) show ?thesis by (simp add: score_A score_C)
qed

subsection \<open>The suggestion\<close>

lemma suggestCard_Some:
  assumes "suggestCard showNumber now t cards = Some sg"
  shows "reason sg = generateReason showNumber (card_sg sg) t"
    and "cashbackAmount sg =
          (if numOr (cashback (card_sg sg) (category t)) 0 > 0
           then Some (amount t * numOr (cashback (card_sg sg) (category t)) 0 / 100)
           else None)"
    and "perks_sg sg = perks (card_sg sg) (category t)"
  using assms unfolding suggestCard_def Let_def
  by (auto split: if_splits list.splits)

lemma reason_rate:
  assumes "rates_not_negative c t"
  shows "numOr (cashback c (category t)) (numOr (cashback c OTHER) 0) = effective_rate c t"
    and "0 \<le> effective_rate c t"
  using assms unfolding rates_not_negative_def effective_rate_def other_rate_def
  by (cases "cashback c (category t)"; cases "cashback c OTHER"; fastforce)+

lemma generateReason_table:
  assumes "rates_not_negative c t"
  shows "reason_table showNumber c t = Some (generateReason showNumber c t)"
  using reason_rate(2)[OF assms]
  unfolding generateReason_def reason_table_def Let_def reason_rate(1)[OF assms]
    hasPerks_present
  by auto

lemma scored_A_B: "scoredCards 0 dining_100 [card_A, card_B] = [(card_A, 30), (card_B, 5)]"
  by (simp add: scoredCards_def score_A score_B byScoreDesc_def)

lemma suggest_A_B:
  "suggestCard (\<lambda>r. ''3'') 0 dining_100 [card_A, card_B] =
     Some \<lparr>card_sg = card_A, reason = ''A offers 3% cashback on dining purchases.'',
           cashbackAmount = Some 3, perks_sg = None\<rparr>"
  unfolding suggestCard_def scored_A_B
  by (simp add: generateReason_def card_A_def dining_100_def hasPerks_def)

lemma rates_A: "rates_not_negative card_A dining_100"
  by (simp add: rates_not_negative_def card_A_def dining_100_def)

lemma valid_N: "validateCard card_N = None"
  by (simp add: validateCard_def card_N_def digitsBetween_def expiryFormat_def isDigit_def
      isSpace_def)

lemma scored_N: "scoredCards 0 dining_100 [card_N] = [(card_N, calculateScore 0 card_N dining_100)]"
  by (simp add: scoredCards_def)

lemma suggest_N:
  "suggestCard show_2 0 dining_100 [card_N] =
     Some \<lparr>card_sg = card_N, reason = ''N offers special perks for dining purchases.'',
           cashbackAmount = None, perks_sg = Some [''Dining credit'']\<rparr>"
  unfolding suggestCard_def scored_N
  by (simp add: generateReason_def card_N_def dining_100_def hasPerks_def show_2_def)

lemma table_N:
  "reason_table show_2 card_N dining_100
     = Some ''N offers 2% cashback on dining purchases and has additional perks.''"
  by (simp add: reason_table_def effective_rate_def other_rate_def perks_present_def
      card_N_def dining_100_def show_2_def)

text \<open>
  Claim C5 as stated fails: \<open>generateReason\<close> takes the direct-category rate whenever
  it is not 0, while scoring step 1 takes it only when it is greater than 0. Card N passes
  validation and has the dining rate -1, the rate 2 under \<open>other\<close> and a dining perk: the
  rate of scoring step 1 is 2, whose row of the table speaks of 2% cashback and perks,
  and the reason that \<open>suggestCard\<close> returns is the row of rate 0 with perks.
\<close>

theorem reason_differs_for_negative_rate:
  "validateCard card_N = None
   \<and> effective_rate card_N dining_100 = 2
   \<and> suggestCard show_2 0 dining_100 [card_N] =
       Some \<lparr>card_sg = card_N, reason = ''N offers special perks for dining purchases.'',
             cashbackAmount = None, perks_sg = Some [''Dining credit'']\<rparr>
   \<and> reason_table show_2 card_N dining_100
       = Some ''N offers 2% cashback on dining purchases and has additional perks.''
   \<and> reason_table show_2 card_N dining_100
       \<noteq> Some ''N offers special perks for dining purchases.''"
proof -
  have "effective_rate card_N dining_100 = 2"
    by (simp add: effective_rate_def other_rate_def card_N_def dining_100_def)
  then show ?thesis by (simp add: valid_N suggest_N table_N)
qed

text \<open>
  Claim C5, amended. For the card that \<open>suggestCard\<close> chooses, provided that neither
  its direct-category rate nor its rate under \<open>other\<close> is negative, the reason string is
  the row of the decision table selected by the effective rate of scoring step 1 and by
  whether perks are present for the category: rate above 0 with perks, rate above 0
  without perks, rate 0 with perks, rate 0 without perks.
\<close>

theorem reason_follows_table:
  assumes "suggestCard showNumber now t cards = Some sg"
    and "rates_not_negative (card_sg sg) t"
  shows "reason_table showNumber (card_sg sg) t = Some (reason sg)"
  using generateReason_table[OF assms(2)] suggestCard_Some(1)[OF assms(1)] by simp

theorem reason_follows_table_witness:
  "suggestCard (\<lambda>r. ''3'') 0 dining_100 [card_A, card_B] \<noteq> None
   \<and> rates_not_negative card_A dining_100
   \<and> reason_table (\<lambda>r. ''3'') card_A dining_100
       = Some ''A offers 3% cashback on dining purchases.''"
  using reason_follows_table[OF suggest_A_B] rates_A suggest_A_B by simp

lemma scored_O: "scoredCards 0 dining_100 [card_O] = [(card_O, calculateScore 0 card_O dining_100)]"
  by (simp add: scoredCards_def)

text \<open>
  Claim C2 at the card O, whose only rate is 1 under \<open>other\<close>, and a dining purchase of
  100. The effective rate of the claim is 1 and the amount it gives is 1; the reason
  string that \<open>suggestCard\<close> returns speaks of 1% cashback on the purchase, as the score
  and the reason fall back to the rate under \<open>other\<close>, but the \<open>cashbackAmount\<close> it
  returns is absent, as that computation reads the direct-category rate alone.
\<close>

theorem cashbackAmount_ignores_other_rate:
  "suggestCard (\<lambda>r. ''1'') 0 dining_100 [card_O]
     = Some \<lparr>card_sg = card_O, reason = ''O offers 1% cashback on dining purchases.'',
             cashbackAmount = None, perks_sg = None\<rparr>
   \<and> effective_rate card_O dining_100 = 1
   \<and> amount dining_100 * (effective_rate card_O dining_100 / 100) = 1"
proof -
  have "suggestCard (\<lambda>r. ''1'') 0 dining_100 [card_O]
     = Some \<lparr>card_sg = card_O, reason = ''O offers 1% cashback on dining purchases.'',
             cashbackAmount = None, perks_sg = None\<rparr>"
    unfolding suggestCard_def scored_O
    by (simp add: generateReason_def hasPerks_def card_O_def dining_100_def)
  moreover have "effective_rate card_O dining_100 = 1"
    by (simp add: effective_rate_def other_rate_def card_O_def dining_100_def)
  ultimately show ?thesis by (simp add: dining_100_def)
qed

end
